theory Spec2Isabelle
  imports Main "HOL-Library.AList"
begin

section \<open>Strings and payload values of the runtime\<close>

text \<open>
  The program is TypeScript (examples/04-hooks/index.ts). Its strings are sequences of
  UTF-16 code units, and its regular expressions (no \<open>u\<close> flag) work on code units, so a
  string is modelled as a list of code units. A code unit is a natural number below 65536;
  no definition below depends on that bound. \<open>str\<close> turns an ASCII literal of the source
  into such a list.
\<close>

type_synonym codeunit = nat
type_synonym jsstring = "codeunit list"

definition str :: "string \<Rightarrow> jsstring" where
  "str s = map of_char s"

text \<open>
  \<open>input.tool_input\<close> is untyped data handed over by the runtime (the source casts
  \<open>tool_input.command as string\<close> without a check). The values modelled are the JSON
  scalars and objects; arrays are not modelled. Numbers are the integers. The keys of an
  object are distinct (a lookup reads the first pair with the key).
\<close>

datatype jsvalue =
    JUndefined
  | JNull
  | JBool bool
  | JNum int
  | JStr jsstring
  | JObj "(jsstring \<times> jsvalue) list"

text \<open>Truthiness, as the conditions \<open>if (v)\<close> and \<open>a && v\<close> of the source use it.\<close>

fun truthy :: "jsvalue \<Rightarrow> bool" where
  "truthy JUndefined = False"
| "truthy JNull = False"
| "truthy (JBool b) = b"
| "truthy (JNum n) = (n \<noteq> 0)"
| "truthy (JStr s) = (s \<noteq> [])"
| "truthy (JObj kvs) = True"

text \<open>
  \<open>v?.key\<close> for the two keys the source reads (\<open>command\<close>, \<open>file_path\<close>): undefined on
  undefined and null (optional chaining), undefined on a scalar (it has no such property),
  the stored value or undefined on an object.
\<close>

fun optProp :: "jsvalue \<Rightarrow> jsstring \<Rightarrow> jsvalue" where
  "optProp (JObj kvs) k = (case map_of kvs k of None \<Rightarrow> JUndefined | Some v \<Rightarrow> v)"
| "optProp v k = JUndefined"

datatype js_error = TypeError

section \<open>Regular expressions of the source\<close>

text \<open>
  The literals of \<open>DANGEROUS_PATTERNS\<close> use literal characters, the classes \<open>.\<close>, \<open>\s\<close>,
  \<open>[rf]\<close> and \<open>[a-z]\<close>, sequencing, grouping, \<open>*\<close> and \<open>+\<close>; the matcher string
  \<open>"Write|Edit"\<close> uses alternation. Without the \<open>s\<close> flag \<open>.\<close> excludes the four line
  terminators; \<open>\s\<close> is the white space and line terminator set of ECMAScript.
\<close>

datatype cclass =
    Chr codeunit
  | Dot
  | Space
  | OneOf "codeunit list"
  | Range codeunit codeunit

fun inClass :: "cclass \<Rightarrow> codeunit \<Rightarrow> bool" where
  "inClass (Chr c) x = (x = c)"
| "inClass Dot x = (x \<noteq> 10 \<and> x \<noteq> 13 \<and> x \<noteq> 8232 \<and> x \<noteq> 8233)"
| "inClass Space x =
     ((9 \<le> x \<and> x \<le> 13) \<or> x = 32 \<or> x = 160 \<or> x = 5760 \<or> (8192 \<le> x \<and> x \<le> 8202)
      \<or> x = 8232 \<or> x = 8233 \<or> x = 8239 \<or> x = 8287 \<or> x = 12288 \<or> x = 65279)"
| "inClass (OneOf cs) x = (x \<in> set cs)"
| "inClass (Range lo hi) x = (lo \<le> x \<and> x \<le> hi)"

datatype regex =
    RFail
  | REps
  | RAtom cclass
  | RSeq regex regex
  | RAlt regex regex
  | RStar regex

definition OneOrMore :: "regex \<Rightarrow> regex" where
  "OneOrMore r = RSeq r (RStar r)"

fun lit :: "string \<Rightarrow> regex" where
  "lit [] = REps"
| "lit (c # cs) = RSeq (RAtom (Chr (of_char c))) (lit cs)"

fun seqs :: "regex list \<Rightarrow> regex" where
  "seqs [] = REps"
| "seqs (r # rs) = RSeq r (seqs rs)"

definition ws :: regex where
  "ws = RAtom Space"

definition anyc :: regex where
  "anyc = RAtom Dot"

text \<open>The strings a pattern denotes.\<close>

inductive matches :: "regex \<Rightarrow> jsstring \<Rightarrow> bool" where
  m_eps: "matches REps []"
| m_atom: "inClass a x \<Longrightarrow> matches (RAtom a) [x]"
| m_seq: "matches r u \<Longrightarrow> matches s v \<Longrightarrow> matches (RSeq r s) (u @ v)"
| m_altl: "matches r w \<Longrightarrow> matches (RAlt r s) w"
| m_altr: "matches s w \<Longrightarrow> matches (RAlt r s) w"
| m_star0: "matches (RStar r) []"
| m_star: "matches r u \<Longrightarrow> matches (RStar r) v \<Longrightarrow> matches (RStar r) (u @ v)"

text \<open>A pattern matches somewhere in a string: some substring is in its language.\<close>

definition matchesAnywhere :: "regex \<Rightarrow> jsstring \<Rightarrow> bool" where
  "matchesAnywhere r s \<longleftrightarrow> (\<exists>p u v. s = p @ u @ v \<and> matches r u)"

text \<open>
  The executable matcher. \<open>pattern.test(s)\<close> on a pattern without the \<open>g\<close> and \<open>y\<close> flags
  tries the start positions 0, 1, ..., length s in turn and answers true at the first
  position where the pattern matches a prefix of the rest (\<open>test\<close> and \<open>matchAt\<close> below).
  The patterns have no anchors, look-around or back references, so the engine's
  backtracking finds a match at a position exactly when one exists; \<open>matchAt\<close> decides
  that with derivatives of the pattern.
\<close>

fun nullable :: "regex \<Rightarrow> bool" where
  "nullable RFail = False"
| "nullable REps = True"
| "nullable (RAtom a) = False"
| "nullable (RSeq r s) = (nullable r \<and> nullable s)"
| "nullable (RAlt r s) = (nullable r \<or> nullable s)"
| "nullable (RStar r) = True"

fun alt :: "regex \<Rightarrow> regex \<Rightarrow> regex" where
  "alt RFail s = s"
| "alt r RFail = r"
| "alt r s = RAlt r s"

fun seq :: "regex \<Rightarrow> regex \<Rightarrow> regex" where
  "seq RFail s = RFail"
| "seq REps s = s"
| "seq r s = RSeq r s"

fun deriv :: "codeunit \<Rightarrow> regex \<Rightarrow> regex" where
  "deriv x RFail = RFail"
| "deriv x REps = RFail"
| "deriv x (RAtom a) = (if inClass a x then REps else RFail)"
| "deriv x (RSeq r s) =
     (if nullable r then alt (seq (deriv x r) s) (deriv x s) else seq (deriv x r) s)"
| "deriv x (RAlt r s) = alt (deriv x r) (deriv x s)"
| "deriv x (RStar r) = seq (deriv x r) (RStar r)"

fun dead :: "regex \<Rightarrow> bool" where
  "dead RFail = True"
| "dead (RSeq r s) = (dead r \<or> dead s)"
| "dead (RAlt r s) = (dead r \<and> dead s)"
| "dead r = False"

fun matchAt :: "regex \<Rightarrow> jsstring \<Rightarrow> bool" where
  "matchAt r [] = nullable r"
| "matchAt r (x # xs) =
     (if nullable r then True else if dead r then False else matchAt (deriv x r) xs)"

fun test :: "regex \<Rightarrow> jsstring \<Rightarrow> bool" where
  "test r [] = matchAt r []"
| "test r (x # xs) = (if matchAt r (x # xs) then True else test r xs)"

text \<open>A match of the whole string, as the registry of the specification asks of a matcher.\<close>

fun matchWhole :: "regex \<Rightarrow> jsstring \<Rightarrow> bool" where
  "matchWhole r [] = nullable r"
| "matchWhole r (x # xs) = matchWhole (deriv x r) xs"

section \<open>Dangerous command patterns (index.ts, lines 45 to 77)\<close>

record DangerousPattern =
  pattern :: regex
  description :: jsstring

definition DANGEROUS_PATTERNS :: "DangerousPattern list" where
  "DANGEROUS_PATTERNS = [
     \<lparr>pattern = seqs [lit ''rm'', OneOrMore ws,
                      RStar (seqs [lit ''-'', OneOrMore (RAtom (OneOf (str ''rf''))),
                                   OneOrMore ws]),
                      lit ''/''],
      description = str ''rm with absolute path''\<rparr>,
     \<lparr>pattern = seqs [lit ''rm'', OneOrMore ws, lit ''-rf'', OneOrMore ws],
      description = str ''rm -rf (recursive force delete)''\<rparr>,
     \<lparr>pattern = seqs [lit ''rmdir'', OneOrMore ws, lit ''/''],
      description = str ''rmdir with absolute path''\<rparr>,
     \<lparr>pattern = seqs [lit ''chmod'', OneOrMore ws, lit ''777''],
      description = str ''chmod 777 (insecure permissions)''\<rparr>,
     \<lparr>pattern = seqs [lit ''mkfs.''],
      description = str ''mkfs (format filesystem)''\<rparr>,
     \<lparr>pattern = seqs [lit ''dd'', OneOrMore ws, lit ''if='', RStar anyc, lit ''of=/dev/''],
      description = str ''dd to device''\<rparr>,
     \<lparr>pattern = seqs [lit ''curl'', RStar anyc, lit ''|'', RStar ws, lit ''sh''],
      description = str ''curl pipe to shell''\<rparr>,
     \<lparr>pattern = seqs [lit ''wget'', RStar anyc, lit ''|'', RStar ws, lit ''sh''],
      description = str ''wget pipe to shell''\<rparr>,
     \<lparr>pattern = seqs [lit ''cat'', OneOrMore ws, RStar anyc, lit ''.ssh/''],
      description = str ''reading SSH keys''\<rparr>,
     \<lparr>pattern = seqs [lit ''cat'', OneOrMore ws, RStar anyc, lit ''/etc/passwd''],
      description = str ''reading passwd file''\<rparr>,
     \<lparr>pattern = seqs [lit ''cat'', OneOrMore ws, RStar anyc, lit ''/etc/shadow''],
      description = str ''reading shadow file''\<rparr>,
     \<lparr>pattern = seqs [lit '':()'', RStar ws, lit ''{'', RStar anyc, lit ''}''],
      description = str ''fork bomb''\<rparr>,
     \<lparr>pattern = seqs [lit ''>'', RStar ws, lit ''/dev/sd'', RAtom (Range 97 122)],
      description = str ''writing to raw device''\<rparr>]"

text \<open>The value \<open>{ blocked: boolean; reason?: string }\<close> that \<open>checkDangerousCommand\<close> returns.\<close>

record CheckResult =
  blocked :: bool
  reason :: "jsstring option"

text \<open>The \<open>for ... of\<close> loop of \<open>checkDangerousCommand\<close>, with its early return.\<close>

fun checkLoop :: "DangerousPattern list \<Rightarrow> jsstring \<Rightarrow> CheckResult" where
  "checkLoop [] command = \<lparr>blocked = False, reason = None\<rparr>"
| "checkLoop (p # ps) command =
     (if test (pattern p) command then \<lparr>blocked = True, reason = Some (description p)\<rparr>
      else checkLoop ps command)"

definition checkDangerousCommand :: "jsstring \<Rightarrow> CheckResult" where
  "checkDangerousCommand command = checkLoop DANGEROUS_PATTERNS command"

text \<open>
  The number of calls of \<open>pattern.test\<close> the same loop makes: one per iteration entered,
  none after the \<open>return\<close>.
\<close>

fun testsLoop :: "DangerousPattern list \<Rightarrow> jsstring \<Rightarrow> nat" where
  "testsLoop [] command = 0"
| "testsLoop (p # ps) command =
     (if test (pattern p) command then 1 else 1 + testsLoop ps command)"

definition testsPerformed :: "jsstring \<Rightarrow> nat" where
  "testsPerformed command = testsLoop DANGEROUS_PATTERNS command"

section \<open>Audit trail and start times (index.ts, lines 18 to 38)\<close>

datatype Phase = Pre | Post

text \<open>
  \<open>interface AuditEntry\<close>. An optional field that is left out or undefined is \<open>None\<close>
  (\<open>JUndefined\<close> for \<open>input\<close>).
\<close>

record AuditEntry =
  timestamp :: jsstring
  toolName :: jsstring
  toolUseId :: jsstring
  phase :: Phase
  input :: jsvalue
  duration :: "int option"
  blocked :: "bool option"
  blockReason :: "jsstring option"

text \<open>
  The two module-level variables: \<open>auditTrail\<close> (an array, appended to) and
  \<open>toolStartTimes\<close> (a \<open>Map\<close> from tool use id to the value of \<open>Date.now()\<close>, an integer
  number of milliseconds).
\<close>

record HookState =
  auditTrail :: "AuditEntry list"
  toolStartTimes :: "jsstring \<rightharpoonup> int"

definition addAuditEntry :: "AuditEntry \<Rightarrow> HookState \<Rightarrow> HookState" where
  "addAuditEntry entry s = s\<lparr>auditTrail := auditTrail s @ [entry]\<rparr>"

section \<open>Hook callbacks (index.ts, lines 93 to 202)\<close>

record HookInput =
  tool_name :: jsstring
  tool_input :: jsvalue

record HookSpecificOutput =
  permissionDecision :: jsstring
  permissionDecisionReason :: jsstring

text \<open>What a callback resolves to: \<open>{}\<close> is \<open>None\<close>, \<open>{ hookSpecificOutput: ... }\<close> is \<open>Some\<close>.\<close>

type_synonym HookJSONOutput = "HookSpecificOutput option"

text \<open>
  A callback returns its output or raises (the promise rejects), and leaves a new state.
  The first two arguments are what the clock gives the call: the string of
  \<open>formatTimestamp()\<close> and the number of \<open>Date.now()\<close>. Console output is not modelled.
\<close>

type_synonym HookResult = "(js_error + HookJSONOutput) \<times> HookState"

text \<open>
  \<open>preToolUseHook\<close>. Line 100 stores the start time before anything is checked. When the
  tool is Bash and \<open>command\<close> is truthy, a string command goes through
  \<open>checkDangerousCommand\<close>; a truthy command that is not a string (a number, \<open>true\<close>, an
  object) has no \<open>slice\<close> method, and both branches call \<open>command.slice\<close> (line 109, line
  131) before any audit entry is added, so the call raises a TypeError there, whichever
  way the check of the coerced value goes.
  The template \<open>${reason}\<close> prints an undefined reason as \<open>undefined\<close>.
\<close>

definition preToolUseHook ::
  "jsstring \<Rightarrow> int \<Rightarrow> HookInput \<Rightarrow> jsstring \<Rightarrow> HookState \<Rightarrow> HookResult" where
  "preToolUseHook ts now inp useId s =
     (let name = tool_name inp;
          s1 = s\<lparr>toolStartTimes := (toolStartTimes s)(useId \<mapsto> now)\<rparr>;
          command = optProp (tool_input inp) (str ''command'')
      in if name = str ''Bash'' \<and> truthy command then
           (case command of
              JStr c \<Rightarrow>
                (let res = checkDangerousCommand c in
                 if CheckResult.blocked res then
                   (Inr (Some \<lparr>permissionDecision = str ''deny'',
                               permissionDecisionReason =
                                 str ''Blocked dangerous command: '' @
                                 (case CheckResult.reason res of
                                    Some d \<Rightarrow> d | None \<Rightarrow> str ''undefined'')\<rparr>),
                    addAuditEntry
                      \<lparr>timestamp = ts, toolName = name, toolUseId = useId, phase = Pre,
                       input = JObj [(str ''command'', JStr (take 100 c))],
                       duration = None, blocked = Some True,
                       blockReason = CheckResult.reason res\<rparr> s1)
                 else
                   (Inr None,
                    addAuditEntry
                      \<lparr>timestamp = ts, toolName = name, toolUseId = useId, phase = Pre,
                       input = tool_input inp,
                       duration = None, blocked = None, blockReason = None\<rparr> s1))
            | _ \<Rightarrow> (Inl TypeError, s1))
         else
           (Inr None,
            addAuditEntry
              \<lparr>timestamp = ts, toolName = name, toolUseId = useId, phase = Pre,
               input = tool_input inp,
               duration = None, blocked = None, blockReason = None\<rparr> s1))"

text \<open>
  \<open>postToolUseHook\<close>: \<open>startTime ? Date.now() - startTime : undefined\<close> tests the looked-up
  start time for truthiness, then the entry of the map is deleted.
\<close>

definition postToolUseHook ::
  "jsstring \<Rightarrow> int \<Rightarrow> HookInput \<Rightarrow> jsstring \<Rightarrow> HookState \<Rightarrow> HookResult" where
  "postToolUseHook ts now inp useId s =
     (let name = tool_name inp;
          startTime = toolStartTimes s useId;
          dur = (case startTime of
                   None \<Rightarrow> None
                 | Some t \<Rightarrow> if t \<noteq> 0 then Some (now - t) else None);
          s1 = s\<lparr>toolStartTimes := (toolStartTimes s)(useId := None)\<rparr>
      in (Inr None,
          addAuditEntry
            \<lparr>timestamp = ts, toolName = name, toolUseId = useId, phase = Post,
             input = JUndefined,
             duration = dur, blocked = None, blockReason = None\<rparr> s1))"

text \<open>\<open>fileWriteHook\<close> only prints; it returns \<open>{}\<close> and changes nothing.\<close>

definition fileWriteHook ::
  "jsstring \<Rightarrow> int \<Rightarrow> HookInput \<Rightarrow> jsstring \<Rightarrow> HookState \<Rightarrow> HookResult" where
  "fileWriteHook ts now inp useId s = (Inr None, s)"

section \<open>Audit summary (index.ts, lines 309 to 319)\<close>

text \<open>
  The three local variables of the summary loop. \<open>toolCounts\<close> is a \<open>Map\<close>, which keeps its
  keys in insertion order: an association list updated in place.
\<close>

record Summary =
  toolCounts :: "(jsstring \<times> nat) list"
  blockedCount :: nat
  totalDuration :: int

definition summaryStep :: "AuditEntry \<Rightarrow> Summary \<Rightarrow> Summary" where
  "summaryStep entry acc =
     (let acc1 =
            (if phase entry = Post then
               acc\<lparr>toolCounts :=
                     AList.update (toolName entry)
                       ((case map_of (toolCounts acc) (toolName entry) of
                           None \<Rightarrow> 0 | Some n \<Rightarrow> n) + 1)
                       (toolCounts acc),
                   totalDuration :=
                     (case duration entry of
                        None \<Rightarrow> totalDuration acc
                      | Some d \<Rightarrow> if d \<noteq> 0 then totalDuration acc + d else totalDuration acc)\<rparr>
             else acc)
      in if AuditEntry.blocked entry = Some True
         then acc1\<lparr>blockedCount := blockedCount acc1 + 1\<rparr> else acc1)"

fun summaryLoop :: "AuditEntry list \<Rightarrow> Summary \<Rightarrow> Summary" where
  "summaryLoop [] acc = acc"
| "summaryLoop (entry # rest) acc = summaryLoop rest (summaryStep entry acc)"

definition summarize :: "AuditEntry list \<Rightarrow> Summary" where
  "summarize trail = summaryLoop trail \<lparr>toolCounts = [], blockedCount = 0, totalDuration = 0\<rparr>"

text \<open>
  The summary as a step of the program: it reads \<open>auditTrail\<close> and writes only its own
  local variables, so the state it leaves is the state it found.
\<close>

definition auditSummary :: "HookState \<Rightarrow> Summary \<times> HookState" where
  "auditSummary s = (summarize (auditTrail s), s)"

section \<open>Hook configuration (index.ts, lines 239 to 252)\<close>

text \<open>
  One element of the arrays under \<open>hooks\<close>: an optional matcher and the callbacks. The
  matcher string is held as the pattern it denotes.
\<close>

record 'h HookRegistration =
  matcher :: "regex option"
  hooks :: "'h list"

type_synonym Hook = "jsstring \<Rightarrow> int \<Rightarrow> HookInput \<Rightarrow> jsstring \<Rightarrow> HookState \<Rightarrow> HookResult"

text \<open>The matcher \<open>"Write|Edit"\<close>.\<close>

definition writeEditMatcher :: regex where
  "writeEditMatcher = RAlt (lit ''Write'') (lit ''Edit'')"

definition PreToolUse :: "Hook HookRegistration list" where
  "PreToolUse = [
     \<lparr>matcher = None, hooks = [preToolUseHook]\<rparr>,
     \<lparr>matcher = Some writeEditMatcher, hooks = [fileWriteHook]\<rparr>]"

definition PostToolUse :: "Hook HookRegistration list" where
  "PostToolUse = [\<lparr>matcher = None, hooks = [postToolUseHook]\<rparr>]"

section \<open>Pattern registry, dispatcher and decision combinator\<close>

text \<open>
  The source hands its configuration to \<open>query\<close> of the agent SDK, which resolves the
  registrations for a tool name and runs their callbacks; that code is not part of the
  source files. The definitions of this section follow the specification instead.
\<close>

text \<open>
  Modelled from the spec: the Pattern Registry's \<open>resolve\<close> (section 4.1) is missing from
  the source. It returns every registration whose matcher is absent or matches the tool
  name, in registration order; matching is a match of the pattern against the whole name.
\<close>

definition matcherApplies :: "regex option \<Rightarrow> jsstring \<Rightarrow> bool" where
  "matcherApplies m name = (case m of None \<Rightarrow> True | Some r \<Rightarrow> matchWhole r name)"

definition resolve :: "'h HookRegistration list \<Rightarrow> jsstring \<Rightarrow> 'h HookRegistration list" where
  "resolve regs name = filter (\<lambda>reg. matcherApplies (matcher reg) name) regs"

text \<open>
  Modelled from the spec: the \<open>PolicyDecision\<close> of section 3 and the Policy Decision
  Combinator of section 4.4 are missing from the source. Given the ordered results of a
  chain, the combinator returns the first DENY met (with its reason), or ALLOW if there is
  none. A callback result counts as a deny when its \<open>permissionDecision\<close> is \<open>deny\<close>, and as
  neutral otherwise.
\<close>

datatype Outcome = ALLOW | DENY

record PolicyDecision =
  outcome :: Outcome
  reason :: "jsstring option"

definition allowDecision :: PolicyDecision where
  "allowDecision = \<lparr>outcome = ALLOW, reason = None\<rparr>"

definition verdict :: "HookJSONOutput \<Rightarrow> PolicyDecision" where
  "verdict out =
     (case out of
        None \<Rightarrow> allowDecision
      | Some h \<Rightarrow>
          if permissionDecision h = str ''deny''
          then \<lparr>outcome = DENY, reason = Some (permissionDecisionReason h)\<rparr>
          else allowDecision)"

fun combine :: "PolicyDecision list \<Rightarrow> PolicyDecision" where
  "combine [] = allowDecision"
| "combine (d # ds) = (if outcome d = DENY then d else combine ds)"

text \<open>
  Modelled from the spec: the Hook Dispatcher's \<open>dispatchPre\<close> (section 4.2) and its fault
  policy (section 7) are missing from the source. The hooks of a flattened chain are
  invoked one at a time, each on the state the one before left; the first deny ends the
  chain; a hook that raises is a DENY with reason \<open>hook execution failed\<close>, and the fault is
  logged. The result carries the decision, the number of hooks invoked and the faults
  logged. The callbacks of one dispatch are given the same two clock values.
\<close>

type_synonym 's ChainHook = "'s \<Rightarrow> (js_error + HookJSONOutput) \<times> 's"

record 's Dispatched =
  decision :: PolicyDecision
  invoked :: nat
  faultLog :: "js_error list"
  stateAfter :: 's

fun runChain :: "'s ChainHook list \<Rightarrow> 's \<Rightarrow> 's Dispatched" where
  "runChain [] s =
     \<lparr>decision = allowDecision, invoked = 0, faultLog = [], stateAfter = s\<rparr>"
| "runChain (h # hs) s =
     (case h s of
        (Inl e, s1) \<Rightarrow>
          \<lparr>decision = \<lparr>outcome = DENY, reason = Some (str ''hook execution failed'')\<rparr>,
           invoked = 1, faultLog = [e], stateAfter = s1\<rparr>
      | (Inr out, s1) \<Rightarrow>
          if outcome (verdict out) = DENY
          then \<lparr>decision = verdict out, invoked = 1, faultLog = [], stateAfter = s1\<rparr>
          else (let d = runChain hs s1 in d\<lparr>invoked := invoked d + 1\<rparr>))"

definition flatten :: "'h HookRegistration list \<Rightarrow> 'h list" where
  "flatten regs = concat (map hooks regs)"

definition dispatchPre ::
  "Hook HookRegistration list \<Rightarrow> jsstring \<Rightarrow> int \<Rightarrow> HookInput \<Rightarrow> jsstring \<Rightarrow> HookState
     \<Rightarrow> HookState Dispatched" where
  "dispatchPre regs ts now inp useId s =
     runChain (map (\<lambda>h. h ts now inp useId) (flatten (resolve regs (tool_name inp)))) s"

section \<open>Notions used in the statements\<close>

text \<open>
  The state a run of hooks leaves when every one of them returns a neutral result; \<open>None\<close>
  when one of them denies or raises.
\<close>

fun afterNeutral :: "'s ChainHook list \<Rightarrow> 's \<Rightarrow> 's option" where
  "afterNeutral [] s = Some s"
| "afterNeutral (h # hs) s =
     (case h s of
        (Inl e, s1) \<Rightarrow> None
      | (Inr out, s1) \<Rightarrow> if outcome (verdict out) = DENY then None else afterNeutral hs s1)"

text \<open>A hook that returns a given result and touches nothing.\<close>

definition constHook :: "HookJSONOutput \<Rightarrow> 's ChainHook" where
  "constHook out = (\<lambda>s. (Inr out, s))"

text \<open>The audit entry a call of \<open>postToolUseHook\<close> appends.\<close>

definition postEntry :: "jsstring \<Rightarrow> int \<Rightarrow> HookInput \<Rightarrow> jsstring \<Rightarrow> HookState \<Rightarrow> AuditEntry" where
  "postEntry ts now inp useId s = last (auditTrail (snd (postToolUseHook ts now inp useId s)))"

text \<open>Entries of phase POST, the duration of an entry (0 when it has none), and one update
  of the \<open>toolCounts\<close> map.\<close>

definition isPost :: "AuditEntry \<Rightarrow> bool" where
  "isPost e \<longleftrightarrow> phase e = Post"

definition durationOr0 :: "AuditEntry \<Rightarrow> int" where
  "durationOr0 e = (case duration e of None \<Rightarrow> 0 | Some d \<Rightarrow> d)"

definition bump :: "(jsstring \<times> nat) list \<Rightarrow> AuditEntry \<Rightarrow> (jsstring \<times> nat) list" where
  "bump tc e =
     AList.update (toolName e)
       ((case map_of tc (toolName e) of None \<Rightarrow> 0 | Some n \<Rightarrow> n) + 1) tc"

text \<open>An audit trail of three entries: a denied PRE, then the PRE and POST of a Read.\<close>

definition sampleTrail :: "AuditEntry list" where
  "sampleTrail =
     [\<lparr>timestamp = str ''12:00:00.000'', toolName = str ''Bash'', toolUseId = str ''toolu_01'',
       phase = Pre, input = JObj [(str ''command'', JStr (str ''rm -rf /''))],
       duration = None, blocked = Some True,
       blockReason = Some (str ''rm with absolute path'')\<rparr>,
      \<lparr>timestamp = str ''12:00:01.000'', toolName = str ''Read'', toolUseId = str ''toolu_02'',
       phase = Pre, input = JUndefined,
       duration = None, blocked = None, blockReason = None\<rparr>,
      \<lparr>timestamp = str ''12:00:01.250'', toolName = str ''Read'', toolUseId = str ''toolu_02'',
       phase = Post, input = JUndefined,
       duration = Some 250, blocked = None, blockReason = None\<rparr>]"

section \<open>The matcher decides the language of a pattern\<close>

inductive_simps matches_Fail [simp]: "matches RFail w"
inductive_simps matches_Eps [simp]: "matches REps w"
inductive_simps matches_Atom [simp]: "matches (RAtom a) w"
inductive_simps matches_Alt [simp]: "matches (RAlt r s) w"
inductive_simps matches_Seq: "matches (RSeq r s) w"

lemma matches_Seq_iff:
  "matches (RSeq r s) w \<longleftrightarrow> (\<exists>u v. w = u @ v \<and> matches r u \<and> matches s v)"
  by (auto simp: matches_Seq)

lemma nullable_iff: "nullable r \<longleftrightarrow> matches r []"
  by (induction r) (auto simp: matches_Seq_iff intro: m_star0)

lemma dead_no_match: "dead r \<Longrightarrow> \<not> matches r w"
  by (induction r arbitrary: w) (auto simp: matches_Seq_iff)

lemma alt_iff: "matches (alt r s) w \<longleftrightarrow> matches r w \<or> matches s w"
  by (induction r s rule: alt.induct) auto

lemma seq_iff: "matches (seq r s) w \<longleftrightarrow> matches (RSeq r s) w"
  by (induction r s rule: seq.induct) (auto simp: matches_Seq_iff)

lemma Seq_cons_iff:
  "matches (RSeq r s) (x # w) \<longleftrightarrow>
     (matches r [] \<and> matches s (x # w)) \<or>
     (\<exists>u v. w = u @ v \<and> matches r (x # u) \<and> matches s v)"
  by (auto simp: matches_Seq_iff Cons_eq_append_conv)

lemma star_cons:
  assumes "matches R w" "R = RStar r" "w = x # t"
  shows "\<exists>u v. t = u @ v \<and> matches r (x # u) \<and> matches (RStar r) v"
  using assms
proof (induction arbitrary: t rule: matches.induct)
  case (m_star r' u v)
  show ?case
  proof (cases u)
    case Nil
    with m_star show ?thesis by simp
  next
    case (Cons y u')
    with m_star.prems m_star.hyps show ?thesis by auto
  qed
qed simp_all

lemma Star_cons_iff:
  "matches (RStar r) (x # w) \<longleftrightarrow>
     (\<exists>u v. w = u @ v \<and> matches r (x # u) \<and> matches (RStar r) v)"
proof
  assume "matches (RStar r) (x # w)"
  from star_cons [OF this refl refl]
  show "\<exists>u v. w = u @ v \<and> matches r (x # u) \<and> matches (RStar r) v" .
next
  assume "\<exists>u v. w = u @ v \<and> matches r (x # u) \<and> matches (RStar r) v"
  then obtain u v where "w = u @ v" "matches r (x # u)" "matches (RStar r) v" by blast
  then show "matches (RStar r) (x # w)"
    using m_star [of r "x # u" v] by simp
qed

lemma deriv_iff: "matches (deriv x r) w \<longleftrightarrow> matches r (x # w)"
proof (induction r arbitrary: w)
  case (RSeq r s)
  have "matches (deriv x (RSeq r s)) w \<longleftrightarrow>
          (nullable r \<and> matches (deriv x s) w) \<or> matches (RSeq (deriv x r) s) w"
    by (simp add: alt_iff seq_iff) blast
  also have "\<dots> \<longleftrightarrow>
          (matches r [] \<and> matches s (x # w)) \<or>
          (\<exists>u v. w = u @ v \<and> matches r (x # u) \<and> matches s v)"
    by (simp only: nullable_iff RSeq.IH matches_Seq_iff)
  also have "\<dots> \<longleftrightarrow> matches (RSeq r s) (x # w)"
    by (simp only: Seq_cons_iff)
  finally show ?case .
next
  case (RStar r)
  have "matches (deriv x (RStar r)) w \<longleftrightarrow> matches (RSeq (deriv x r) (RStar r)) w"
    by (simp add: seq_iff)
  also have "\<dots> \<longleftrightarrow> (\<exists>u v. w = u @ v \<and> matches r (x # u) \<and> matches (RStar r) v)"
    by (simp only: matches_Seq_iff RStar.IH)
  also have "\<dots> \<longleftrightarrow> matches (RStar r) (x # w)"
    by (simp only: Star_cons_iff)
  finally show ?case .
qed (simp_all add: alt_iff)

lemma matchAt_iff: "matchAt r s \<longleftrightarrow> (\<exists>u v. s = u @ v \<and> matches r u)"
proof (induction s arbitrary: r)
  case Nil
  then show ?case by (simp add: nullable_iff)
next
  case (Cons x xs)
  show ?case
  proof
    assume "matchAt r (x # xs)"
    then consider "nullable r" | "matchAt (deriv x r) xs" by (auto split: if_splits)
    then show "\<exists>u v. x # xs = u @ v \<and> matches r u"
    proof cases
      case 1
      then have "x # xs = [] @ (x # xs) \<and> matches r []" by (simp add: nullable_iff)
      then show ?thesis by blast
    next
      case 2
      then obtain u v where "xs = u @ v" "matches (deriv x r) u" using Cons by blast
      then have "x # xs = (x # u) @ v \<and> matches r (x # u)" by (simp add: deriv_iff)
      then show ?thesis by blast
    qed
  next
    assume "\<exists>u v. x # xs = u @ v \<and> matches r u"
    then obtain u v where uv: "x # xs = u @ v" "matches r u" by blast
    show "matchAt r (x # xs)"
    proof (cases u)
      case Nil
      with uv have "nullable r" by (simp add: nullable_iff)
      then show ?thesis by simp
    next
      case (Cons y u')
      with uv have "xs = u' @ v" "matches (deriv x r) u'" by (auto simp: deriv_iff)
      then have "matchAt (deriv x r) xs" using Cons.IH by blast
      moreover have "\<not> dead r" using uv dead_no_match by blast
      ultimately show ?thesis by simp
    qed
  qed
qed

lemma test_iff: "test r s \<longleftrightarrow> matchesAnywhere r s"
  unfolding matchesAnywhere_def
proof (induction s)
  case Nil
  then show ?case by (simp add: matchAt_iff)
next
  case (Cons x xs)
  show ?case
  proof
    assume "test r (x # xs)"
    then consider "matchAt r (x # xs)" | "test r xs" by (auto split: if_splits)
    then show "\<exists>p u v. x # xs = p @ u @ v \<and> matches r u"
    proof cases
      case 1
      then obtain u v where "x # xs = [] @ u @ v \<and> matches r u"
        unfolding matchAt_iff by auto
      then show ?thesis by blast
    next
      case 2
      then obtain p u v where "xs = p @ u @ v" "matches r u" using Cons by blast
      then have "x # xs = (x # p) @ u @ v \<and> matches r u" by simp
      then show ?thesis by blast
    qed
  next
    assume "\<exists>p u v. x # xs = p @ u @ v \<and> matches r u"
    then obtain p u v where puv: "x # xs = p @ u @ v" "matches r u" by blast
    show "test r (x # xs)"
    proof (cases p)
      case Nil
      with puv have "matchAt r (x # xs)" unfolding matchAt_iff by auto
      then show ?thesis by (simp del: matchAt.simps)
    next
      case (Cons y p')
      with puv have "xs = p' @ u @ v" by simp
      with puv Cons.IH have "test r xs" by blast
      then show ?thesis by simp
    qed
  qed
qed


section \<open>The loops of the source and of the dispatcher\<close>

lemma matchWhole_iff: "matchWhole r s \<longleftrightarrow> matches r s"
  by (induction s arbitrary: r) (simp_all add: nullable_iff deriv_iff)

lemma matches_lit: "matches (lit cs) w \<longleftrightarrow> w = str cs"
  by (induction cs arbitrary: w) (auto simp: str_def matches_Seq_iff)

lemma checkLoop_find:
  "checkLoop ps c =
     (case find (\<lambda>p. test (pattern p) c) ps of
        None \<Rightarrow> \<lparr>CheckResult.blocked = False, reason = None\<rparr>
      | Some p \<Rightarrow> \<lparr>CheckResult.blocked = True, reason = Some (description p)\<rparr>)"
  by (induction ps) simp_all

lemma testsLoop_count:
  "testsLoop ps c =
     (if \<exists>p\<in>set ps. test (pattern p) c
      then Suc (length (takeWhile (\<lambda>p. \<not> test (pattern p) c) ps))
      else length ps)"
  by (induction ps) simp_all

lemma checkLoop_blocked:
  "CheckResult.blocked (checkLoop ps c) \<longleftrightarrow> (\<exists>p\<in>set ps. test (pattern p) c)"
  by (induction ps) simp_all

lemma checkLoop_reason_None:
  "CheckResult.reason (checkLoop ps c) = None \<longleftrightarrow> \<not> CheckResult.blocked (checkLoop ps c)"
  by (induction ps) simp_all

lemma rm_rf_matches:
  "matches (pattern (DANGEROUS_PATTERNS ! 1)) (str ''rm -rf '')"
  by (simp add: matchWhole_iff [symmetric] DANGEROUS_PATTERNS_def str_def ws_def OneOrMore_def)

lemma rm_rf_found:
  assumes "c = pre @ str ''rm -rf '' @ post"
  shows "\<exists>p. find (\<lambda>q. test (pattern q) c) DANGEROUS_PATTERNS = Some p"
proof -
  have "matchesAnywhere (pattern (DANGEROUS_PATTERNS ! 1)) c"
    unfolding matchesAnywhere_def using assms rm_rf_matches by blast
  then have "test (pattern (DANGEROUS_PATTERNS ! 1)) c" by (simp add: test_iff)
  moreover have "DANGEROUS_PATTERNS ! 1 \<in> set DANGEROUS_PATTERNS"
    by (simp add: DANGEROUS_PATTERNS_def)
  ultimately have "find (\<lambda>q. test (pattern q) c) DANGEROUS_PATTERNS \<noteq> None"
    unfolding find_None_iff by blast
  then show ?thesis by auto
qed

lemma combine_find:
  "combine ds = (case find (\<lambda>d. outcome d = DENY) ds of None \<Rightarrow> allowDecision | Some d \<Rightarrow> d)"
  by (induction ds) simp_all

lemma runChain_const:
  "runChain (map constHook outs) s =
     \<lparr>decision = combine (map verdict outs),
      invoked = (if \<exists>out\<in>set outs. outcome (verdict out) = DENY
                 then Suc (length (takeWhile (\<lambda>out. outcome (verdict out) \<noteq> DENY) outs))
                 else length outs),
      faultLog = [], stateAfter = s\<rparr>"
  by (induction outs) (auto simp: constHook_def Let_def)

section \<open>Registry and dispatcher\<close>

lemma writeEdit_whole:
  "matchWhole writeEditMatcher name \<longleftrightarrow> name = str ''Write'' \<or> name = str ''Edit''"
  by (simp add: matchWhole_iff writeEditMatcher_def matches_lit del: lit.simps)

lemma resolve_member:
  "reg \<in> set (resolve regs name) \<longleftrightarrow> reg \<in> set regs \<and> matcherApplies (matcher reg) name"
  by (simp add: resolve_def)

lemma runChain_after_neutral:
  "afterNeutral hs1 s = Some s1 \<Longrightarrow>
   runChain (hs1 @ hs2) s =
     (runChain hs2 s1)\<lparr>invoked := invoked (runChain hs2 s1) + length hs1\<rparr>"
proof (induction hs1 arbitrary: s)
  case Nil
  then show ?case by simp
next
  case (Cons h hs1)
  then show ?case
    by (auto simp: Let_def split: prod.splits sum.splits if_splits)
qed

lemma runChain_deny_stops:
  assumes "afterNeutral hs1 s = Some s1" and "h s1 = (Inr out, s2)"
    and "outcome (verdict out) = DENY"
  shows "runChain (hs1 @ h # hs2) s =
     \<lparr>decision = verdict out, invoked = length hs1 + 1, faultLog = [], stateAfter = s2\<rparr>"
  using assms by (simp add: runChain_after_neutral)

section \<open>The hooks and the summary loop\<close>

lemma pre_non_string_command:
  assumes "tool_name inp = str ''Bash''"
    and "optProp (tool_input inp) (str ''command'') = v" and "truthy v"
    and "\<forall>c. v \<noteq> JStr c"
  shows "preToolUseHook ts now inp useId s =
     (Inl TypeError, s\<lparr>toolStartTimes := (toolStartTimes s)(useId \<mapsto> now)\<rparr>)"
  using assms by (cases v) (simp_all add: preToolUseHook_def Let_def)

lemma pre_start:
  "toolStartTimes (snd (preToolUseHook ts now inp useId s)) useId = Some now"
  by (simp add: preToolUseHook_def Let_def addAuditEntry_def split: jsvalue.splits)

lemma pre_other:
  "k \<noteq> useId \<Longrightarrow>
   toolStartTimes (snd (preToolUseHook ts now inp useId s)) k = toolStartTimes s k"
  by (simp add: preToolUseHook_def Let_def addAuditEntry_def split: jsvalue.splits)

lemma post_snd:
  "snd (postToolUseHook ts now inp useId s) =
     \<lparr>auditTrail = auditTrail s @
        [\<lparr>timestamp = ts, toolName = tool_name inp, toolUseId = useId, phase = Post,
          input = JUndefined,
          duration = (case toolStartTimes s useId of
                        None \<Rightarrow> None
                      | Some t \<Rightarrow> if t \<noteq> 0 then Some (now - t) else None),
          blocked = None, blockReason = None\<rparr>],
      toolStartTimes = (toolStartTimes s)(useId := None)\<rparr>"
  by (simp add: postToolUseHook_def Let_def addAuditEntry_def)

lemma postEntry_duration:
  "duration (postEntry ts now inp useId s) =
     (case toolStartTimes s useId of
        None \<Rightarrow> None
      | Some t \<Rightarrow> if t \<noteq> 0 then Some (now - t) else None)"
  by (simp add: postEntry_def post_snd)

lemma post_removes:
  "toolStartTimes (snd (postToolUseHook ts now inp useId s)) useId = None"
  by (simp add: post_snd)

lemma post_other:
  "k \<noteq> useId \<Longrightarrow>
   toolStartTimes (snd (postToolUseHook ts now inp k s)) useId = toolStartTimes s useId"
  by (simp add: post_snd)

lemma pre_blocked:
  assumes "tool_name inp = str ''Bash''"
    and "optProp (tool_input inp) (str ''command'') = JStr c" and "c \<noteq> []"
    and "checkDangerousCommand c = \<lparr>CheckResult.blocked = True, reason = Some d\<rparr>"
  shows "fst (preToolUseHook ts now inp useId s) =
      Inr (Some \<lparr>permissionDecision = str ''deny'',
                 permissionDecisionReason = str ''Blocked dangerous command: '' @ d\<rparr>)"
  using assms by (simp add: preToolUseHook_def Let_def)

lemma check_rm_rf_root:
  "checkDangerousCommand (str ''rm -rf /'') =
     \<lparr>CheckResult.blocked = True, reason = Some (str ''rm with absolute path'')\<rparr>"
  by (simp add: checkDangerousCommand_def DANGEROUS_PATTERNS_def str_def ws_def OneOrMore_def)

lemma pre_independent_of_store:
  "fst (preToolUseHook ts now inp useId (s\<lparr>toolStartTimes := m\<rparr>)) =
     fst (preToolUseHook ts now inp useId s)
   \<and> auditTrail (snd (preToolUseHook ts now inp useId (s\<lparr>toolStartTimes := m\<rparr>))) =
     auditTrail (snd (preToolUseHook ts now inp useId s))"
  by (simp add: preToolUseHook_def Let_def addAuditEntry_def split: jsvalue.splits)

lemma loop_blocked:
  "blockedCount (summaryLoop es acc) =
     blockedCount acc + length (filter (\<lambda>e. AuditEntry.blocked e = Some True) es)"
  by (induction es arbitrary: acc) (auto simp: summaryStep_def Let_def)

lemma loop_total:
  "totalDuration (summaryLoop es acc) =
     totalDuration acc + sum_list (map durationOr0 (filter isPost es))"
  by (induction es arbitrary: acc)
     (auto simp: summaryStep_def Let_def isPost_def durationOr0_def split: option.splits)

lemma loop_counts:
  "toolCounts (summaryLoop es acc) = foldl bump (toolCounts acc) (filter isPost es)"
  by (induction es arbitrary: acc) (auto simp: summaryStep_def Let_def isPost_def bump_def)

lemma bump_count:
  "map_of (foldl bump tc es) name =
     (case map_of tc name of
        None \<Rightarrow> if filter (\<lambda>e. toolName e = name) es = [] then None
                else Some (length (filter (\<lambda>e. toolName e = name) es))
      | Some n \<Rightarrow> Some (n + length (filter (\<lambda>e. toolName e = name) es)))"
proof (induction es arbitrary: tc)
  case Nil
  then show ?case by (simp split: option.splits)
next
  case (Cons e es)
  show ?case
    by (simp add: Cons.IH) (auto simp: bump_def update_conv split: option.splits)
qed

section \<open>The claims\<close>

text \<open>
  C1. A PRE event for the tool Bash whose \<open>command\<close> is a string containing \<open>rm -rf\<close> and a
  space (whatever precedes it, and whatever path follows) is denied by \<open>preToolUseHook\<close>:
  the result is a deny whose reason is \<open>Blocked dangerous command:\<close> followed by the
  description of the first pattern of \<open>DANGEROUS_PATTERNS\<close> that matches the command, and
  the audit trail grows by exactly one entry, of phase PRE, with \<open>blocked = true\<close> and that
  description as block reason.
\<close>

theorem C1_rm_rf_denied:
  assumes "tool_name inp = str ''Bash''"
    and "optProp (tool_input inp) (str ''command'') = JStr c"
    and "c = pre @ str ''rm -rf '' @ post"
  shows "\<exists>p. find (\<lambda>q. test (pattern q) c) DANGEROUS_PATTERNS = Some p \<and>
    preToolUseHook ts now inp useId s =
      (Inr (Some \<lparr>permissionDecision = str ''deny'',
                  permissionDecisionReason =
                    str ''Blocked dangerous command: '' @ description p\<rparr>),
       s\<lparr>toolStartTimes := (toolStartTimes s)(useId \<mapsto> now),
         auditTrail := auditTrail s @
           [\<lparr>timestamp = ts, toolName = str ''Bash'', toolUseId = useId, phase = Pre,
             input = JObj [(str ''command'', JStr (take 100 c))],
             duration = None, blocked = Some True,
             blockReason = Some (description p)\<rparr>]\<rparr>)"
proof -
  from rm_rf_found [OF assms(3)] obtain p
    where p: "find (\<lambda>q. test (pattern q) c) DANGEROUS_PATTERNS = Some p" by blast
  have ne: "c \<noteq> []" using assms(3) by (simp add: str_def)
  have res: "checkDangerousCommand c =
      \<lparr>CheckResult.blocked = True, reason = Some (description p)\<rparr>"
    by (simp add: checkDangerousCommand_def checkLoop_find p)
  have "preToolUseHook ts now inp useId s =
      (Inr (Some \<lparr>permissionDecision = str ''deny'',
                  permissionDecisionReason =
                    str ''Blocked dangerous command: '' @ description p\<rparr>),
       s\<lparr>toolStartTimes := (toolStartTimes s)(useId \<mapsto> now),
         auditTrail := auditTrail s @
           [\<lparr>timestamp = ts, toolName = str ''Bash'', toolUseId = useId, phase = Pre,
             input = JObj [(str ''command'', JStr (take 100 c))],
             duration = None, blocked = Some True,
             blockReason = Some (description p)\<rparr>]\<rparr>)"
    by (simp add: preToolUseHook_def Let_def assms(1,2) ne res addAuditEntry_def)
  with p show ?thesis by blast
qed

text \<open>The command \<open>rm -rf /\<close> on an empty state: denied by the first pattern.\<close>

theorem C1_rm_rf_denied_witness:
  "preToolUseHook (str ''12:00:00.000'') 1000
     \<lparr>tool_name = str ''Bash'',
      tool_input = JObj [(str ''command'', JStr (str ''rm -rf /''))]\<rparr>
     (str ''toolu_01'') \<lparr>auditTrail = [], toolStartTimes = Map.empty\<rparr> =
   (Inr (Some \<lparr>permissionDecision = str ''deny'',
               permissionDecisionReason =
                 str ''Blocked dangerous command: rm with absolute path''\<rparr>),
    \<lparr>auditTrail =
       [\<lparr>timestamp = str ''12:00:00.000'', toolName = str ''Bash'',
         toolUseId = str ''toolu_01'', phase = Pre,
         input = JObj [(str ''command'', JStr (str ''rm -rf /''))],
         duration = None, blocked = Some True,
         blockReason = Some (str ''rm with absolute path'')\<rparr>],
     toolStartTimes = [str ''toolu_01'' \<mapsto> 1000]\<rparr>)"
proof -
  let ?c = "str ''rm -rf /''"
  let ?inp = "\<lparr>tool_name = str ''Bash'', tool_input = JObj [(str ''command'', JStr ?c)]\<rparr>"
  have f: "find (\<lambda>q. test (pattern q) ?c) DANGEROUS_PATTERNS = Some (DANGEROUS_PATTERNS ! 0)"
    by (simp add: DANGEROUS_PATTERNS_def str_def ws_def OneOrMore_def)
  have d: "description (DANGEROUS_PATTERNS ! 0) = str ''rm with absolute path''"
    by (simp add: DANGEROUS_PATTERNS_def)
  have c: "?c = [] @ str ''rm -rf '' @ str ''/''" by (simp add: str_def)
  have o: "optProp (tool_input ?inp) (str ''command'') = JStr ?c" by simp
  have t: "take 100 ?c = ?c" by (simp add: str_def)
  from C1_rm_rf_denied [of ?inp ?c "[]" "str ''/''" "str ''12:00:00.000''" 1000
      "str ''toolu_01''" "\<lparr>auditTrail = [], toolStartTimes = Map.empty\<rparr>", OF _ o c]
  show ?thesis
    by (simp add: f d t) (simp add: str_def)
qed

text \<open>
  C2. The combined decision of an ordered chain of hook results is the first DENY in it
  (with its reason), or ALLOW if it has none; the dispatcher invokes the hooks up to and
  including the first that denies, and none after it: for hooks that only return a result,
  and for hooks with effects alike, where the hooks after the first deny play no part in
  the decision, the count of invocations or the state left. Likewise
  \<open>checkDangerousCommand\<close> returns the description of the first pattern, in the order of
  \<open>DANGEROUS_PATTERNS\<close>, that matches the command, and its loop calls \<open>pattern.test\<close> on the
  patterns up to and including that one only.
\<close>

theorem C2_first_deny_wins:
  "combine ds = (case find (\<lambda>d. outcome d = DENY) ds of None \<Rightarrow> allowDecision | Some d \<Rightarrow> d)
   \<and> runChain (map constHook outs) s =
       \<lparr>decision = combine (map verdict outs),
        invoked = (if \<exists>out\<in>set outs. outcome (verdict out) = DENY
                   then Suc (length (takeWhile (\<lambda>out. outcome (verdict out) \<noteq> DENY) outs))
                   else length outs),
        faultLog = [], stateAfter = s\<rparr>
   \<and> (afterNeutral hs1 s1 = Some s2 \<and> h s2 = (Inr out, s3) \<and> outcome (verdict out) = DENY
        \<longrightarrow> runChain (hs1 @ h # hs2) s1 =
              \<lparr>decision = verdict out, invoked = length hs1 + 1, faultLog = [],
               stateAfter = s3\<rparr>)
   \<and> checkDangerousCommand c =
       (case find (\<lambda>p. test (pattern p) c) DANGEROUS_PATTERNS of
          None \<Rightarrow> \<lparr>CheckResult.blocked = False, reason = None\<rparr>
        | Some p \<Rightarrow> \<lparr>CheckResult.blocked = True, reason = Some (description p)\<rparr>)
   \<and> testsPerformed c =
       (if \<exists>p\<in>set DANGEROUS_PATTERNS. test (pattern p) c
        then Suc (length (takeWhile (\<lambda>p. \<not> test (pattern p) c) DANGEROUS_PATTERNS))
        else length DANGEROUS_PATTERNS)"
proof -
  have "afterNeutral hs1 s1 = Some s2 \<and> h s2 = (Inr out, s3) \<and> outcome (verdict out) = DENY
        \<longrightarrow> runChain (hs1 @ h # hs2) s1 =
              \<lparr>decision = verdict out, invoked = length hs1 + 1, faultLog = [],
               stateAfter = s3\<rparr>"
    using runChain_deny_stops [of hs1 s1 s2 h out s3 hs2] by blast
  then show ?thesis
    by (simp only: combine_find [symmetric] runChain_const checkDangerousCommand_def
          testsPerformed_def checkLoop_find [symmetric] testsLoop_count [symmetric] simp_thms)
qed

text \<open>
  The chain allow, deny, allow invokes exactly two hooks, and so does the chain of
  \<open>fileWriteHook\<close>, \<open>preToolUseHook\<close>, \<open>fileWriteHook\<close> on the Bash command \<open>rm -rf /\<close>; that
  command is reported with the first pattern after a single test, although the second
  pattern matches it as well.
\<close>

theorem C2_first_deny_wins_witness:
  "invoked (runChain (map constHook
       [None,
        Some \<lparr>permissionDecision = str ''deny'', permissionDecisionReason = str ''no''\<rparr>,
        None]) \<lparr>auditTrail = [], toolStartTimes = Map.empty\<rparr>) = 2
   \<and> decision (runChain (map constHook
       [None,
        Some \<lparr>permissionDecision = str ''deny'', permissionDecisionReason = str ''no''\<rparr>,
        None]) \<lparr>auditTrail = [], toolStartTimes = Map.empty\<rparr>) =
       \<lparr>outcome = DENY, reason = Some (str ''no'')\<rparr>
   \<and> invoked (runChain
       [fileWriteHook (str ''12:00:00.000'') 1000
          \<lparr>tool_name = str ''Bash'',
           tool_input = JObj [(str ''command'', JStr (str ''rm -rf /''))]\<rparr> (str ''toolu_01''),
        preToolUseHook (str ''12:00:00.000'') 1000
          \<lparr>tool_name = str ''Bash'',
           tool_input = JObj [(str ''command'', JStr (str ''rm -rf /''))]\<rparr> (str ''toolu_01''),
        fileWriteHook (str ''12:00:00.000'') 1000
          \<lparr>tool_name = str ''Bash'',
           tool_input = JObj [(str ''command'', JStr (str ''rm -rf /''))]\<rparr> (str ''toolu_01'')]
       \<lparr>auditTrail = [], toolStartTimes = Map.empty\<rparr>) = 2
   \<and> decision (runChain
       [fileWriteHook (str ''12:00:00.000'') 1000
          \<lparr>tool_name = str ''Bash'',
           tool_input = JObj [(str ''command'', JStr (str ''rm -rf /''))]\<rparr> (str ''toolu_01''),
        preToolUseHook (str ''12:00:00.000'') 1000
          \<lparr>tool_name = str ''Bash'',
           tool_input = JObj [(str ''command'', JStr (str ''rm -rf /''))]\<rparr> (str ''toolu_01''),
        fileWriteHook (str ''12:00:00.000'') 1000
          \<lparr>tool_name = str ''Bash'',
           tool_input = JObj [(str ''command'', JStr (str ''rm -rf /''))]\<rparr> (str ''toolu_01'')]
       \<lparr>auditTrail = [], toolStartTimes = Map.empty\<rparr>) =
       \<lparr>outcome = DENY,
        reason = Some (str ''Blocked dangerous command: rm with absolute path'')\<rparr>
   \<and> test (pattern (DANGEROUS_PATTERNS ! 1)) (str ''rm -rf /'')
   \<and> checkDangerousCommand (str ''rm -rf /'') =
       \<lparr>CheckResult.blocked = True, reason = Some (str ''rm with absolute path'')\<rparr>
   \<and> testsPerformed (str ''rm -rf /'') = 1"
proof -
  let ?c = "str ''rm -rf /''"
  let ?s = "\<lparr>auditTrail = [], toolStartTimes = Map.empty\<rparr>"
  let ?inp = "\<lparr>tool_name = str ''Bash'', tool_input = JObj [(str ''command'', JStr ?c)]\<rparr>"
  let ?w = "fileWriteHook (str ''12:00:00.000'') 1000 ?inp (str ''toolu_01'')"
  let ?h = "preToolUseHook (str ''12:00:00.000'') 1000 ?inp (str ''toolu_01'')"
  let ?deny = "Some \<lparr>permissionDecision = str ''deny'',
      permissionDecisionReason = str ''Blocked dangerous command: '' @ str ''rm with absolute path''\<rparr>"
  let ?outs = "[None,
        Some \<lparr>permissionDecision = str ''deny'', permissionDecisionReason = str ''no''\<rparr>,
        None]"
  have t0: "test (pattern (DANGEROUS_PATTERNS ! 0)) ?c"
    by (simp add: DANGEROUS_PATTERNS_def str_def ws_def OneOrMore_def)
  have t1: "test (pattern (DANGEROUS_PATTERNS ! 1)) ?c"
    by (simp add: DANGEROUS_PATTERNS_def str_def ws_def OneOrMore_def)
  obtain p ps where dp: "DANGEROUS_PATTERNS = p # ps"
    and p: "p = DANGEROUS_PATTERNS ! 0" and d: "description p = str ''rm with absolute path''"
    by (simp add: DANGEROUS_PATTERNS_def)
  have tp: "test (pattern p) ?c" using t0 p by simp
  have v: "verdict None = allowDecision"
    "verdict (Some \<lparr>permissionDecision = str ''deny'', permissionDecisionReason = str ''no''\<rparr>)
       = \<lparr>outcome = DENY, reason = Some (str ''no'')\<rparr>"
    by (simp_all add: verdict_def)
  have ne: "?c \<noteq> []" by (simp add: str_def)
  have n: "afterNeutral [?w] ?s = Some ?s"
    by (simp add: fileWriteHook_def verdict_def allowDecision_def)
  have f: "fst (?h ?s) = Inr ?deny"
    by (rule pre_blocked [OF _ _ ne check_rm_rf_root]) simp_all
  then have h: "?h ?s = (Inr ?deny, snd (?h ?s))"
    by (metis prod.collapse)
  have vd: "verdict ?deny =
      \<lparr>outcome = DENY, reason = Some (str ''Blocked dangerous command: rm with absolute path'')\<rparr>"
    by (simp add: verdict_def str_def)
  then have o: "outcome (verdict ?deny) = DENY" by simp
  note T = C2_first_deny_wins [of "[]" ?outs ?s "[?w]" ?s ?s ?h ?deny "snd (?h ?s)" "[?w]" ?c]
  have g: "runChain ([?w] @ ?h # [?w]) ?s =
      \<lparr>decision = verdict ?deny, invoked = length [?w] + 1, faultLog = [],
       stateAfter = snd (?h ?s)\<rparr>"
    using T n h o by blast
  have g2: "invoked (runChain [?w, ?h, ?w] ?s) = 2 \<and> decision (runChain [?w, ?h, ?w] ?s) =
      \<lparr>outcome = DENY, reason = Some (str ''Blocked dangerous command: rm with absolute path'')\<rparr>"
    using g vd by (simp del: runChain.simps)
  from T g2 show ?thesis
    using t1 by (simp add: dp tp d v allowDecision_def del: runChain.simps)
qed

text \<open>
  C3. As stated (every begin followed by an end yields a duration that is at least 0) the
  claim fails: the start time is the wall clock of the PRE call and the duration is the
  wall clock of the POST call minus it, which is negative when the clock was set back in
  between, and the truthiness test on the start time yields no duration when the start
  time is 0.
\<close>

theorem C3_counterexample:
  "duration (postEntry (str ''12:00:01.000'') 5
       \<lparr>tool_name = str ''Read'', tool_input = JUndefined\<rparr> (str ''toolu_04'')
       (snd (preToolUseHook (str ''12:00:00.000'') 10
          \<lparr>tool_name = str ''Read'', tool_input = JUndefined\<rparr> (str ''toolu_04'')
          \<lparr>auditTrail = [], toolStartTimes = Map.empty\<rparr>))) = Some (- 5)
   \<and> duration (postEntry (str ''12:00:01.000'') 5
       \<lparr>tool_name = str ''Read'', tool_input = JUndefined\<rparr> (str ''toolu_04'')
       (snd (preToolUseHook (str ''12:00:00.000'') 0
          \<lparr>tool_name = str ''Read'', tool_input = JUndefined\<rparr> (str ''toolu_04'')
          \<lparr>auditTrail = [], toolStartTimes = Map.empty\<rparr>))) = None"
  by (simp add: postEntry_duration pre_start)

text \<open>
  C3, amended. A PRE call on a tool use id at time \<open>t0\<close> stores \<open>t0\<close> as its record. When the
  record of the id holds a start time \<open>t0\<close> other than 0 and the POST call reads a time \<open>t1\<close>
  with \<open>t0 \<le> t1\<close>, the POST entry records the duration \<open>t1 - t0\<close>, which is at least 0, and
  the record of the id is removed; a POST call on an id with no record (a second POST call
  on the same id, for one) records no duration. Calls for other ids leave the record of the
  id as it is.
\<close>

theorem C3_begin_end:
  assumes "t0 \<noteq> 0" and "t0 \<le> t1" and "toolStartTimes s1 useId = Some t0"
  shows "toolStartTimes (snd (preToolUseHook ts0 t0 inp0 useId s)) useId = Some t0
   \<and> duration (postEntry ts1 t1 inp1 useId s1) = Some (t1 - t0)
   \<and> 0 \<le> t1 - t0
   \<and> toolStartTimes (snd (postToolUseHook ts1 t1 inp1 useId s1)) useId = None
   \<and> (toolStartTimes s2 useId = None \<longrightarrow> duration (postEntry ts2 t2 inp2 useId s2) = None)
   \<and> (k \<noteq> useId \<longrightarrow>
        toolStartTimes (snd (preToolUseHook ts3 t3 inp3 k s3)) useId = toolStartTimes s3 useId
        \<and> toolStartTimes (snd (postToolUseHook ts3 t3 inp3 k s3)) useId = toolStartTimes s3 useId)"
  using assms
  by (simp add: postEntry_duration pre_start post_removes pre_other post_other)

text \<open>
  A Read that starts at 1000 and ends at 1250, followed by a second POST call; the PRE call
  of another tool use in between leaves its record alone.
\<close>

theorem C3_begin_end_witness:
  "duration (postEntry (str ''12:00:01.250'') 1250
       \<lparr>tool_name = str ''Read'', tool_input = JUndefined\<rparr> (str ''toolu_04'')
       (snd (preToolUseHook (str ''12:00:01.000'') 1000
          \<lparr>tool_name = str ''Read'', tool_input = JUndefined\<rparr> (str ''toolu_04'')
          \<lparr>auditTrail = [], toolStartTimes = Map.empty\<rparr>))) = Some 250
   \<and> toolStartTimes (snd (postToolUseHook (str ''12:00:01.250'') 1250
       \<lparr>tool_name = str ''Read'', tool_input = JUndefined\<rparr> (str ''toolu_04'')
       (snd (preToolUseHook (str ''12:00:01.000'') 1000
          \<lparr>tool_name = str ''Read'', tool_input = JUndefined\<rparr> (str ''toolu_04'')
          \<lparr>auditTrail = [], toolStartTimes = Map.empty\<rparr>)))) (str ''toolu_04'') = None
   \<and> duration (postEntry (str ''12:00:02.000'') 2000
       \<lparr>tool_name = str ''Read'', tool_input = JUndefined\<rparr> (str ''toolu_04'')
       (snd (postToolUseHook (str ''12:00:01.250'') 1250
       \<lparr>tool_name = str ''Read'', tool_input = JUndefined\<rparr> (str ''toolu_04'')
       (snd (preToolUseHook (str ''12:00:01.000'') 1000
          \<lparr>tool_name = str ''Read'', tool_input = JUndefined\<rparr> (str ''toolu_04'')
          \<lparr>auditTrail = [], toolStartTimes = Map.empty\<rparr>))))) = None
   \<and> toolStartTimes (snd (preToolUseHook (str ''12:00:01.100'') 1100
       \<lparr>tool_name = str ''Glob'', tool_input = JUndefined\<rparr> (str ''toolu_09'')
       (snd (preToolUseHook (str ''12:00:01.000'') 1000
          \<lparr>tool_name = str ''Read'', tool_input = JUndefined\<rparr> (str ''toolu_04'')
          \<lparr>auditTrail = [], toolStartTimes = Map.empty\<rparr>)))) (str ''toolu_04'') = Some 1000"
proof -
  let ?inp = "\<lparr>tool_name = str ''Read'', tool_input = JUndefined\<rparr>"
  let ?s0 = "\<lparr>auditTrail = [], toolStartTimes = Map.empty\<rparr>"
  let ?s1 = "snd (preToolUseHook (str ''12:00:01.000'') 1000 ?inp (str ''toolu_04'') ?s0)"
  let ?s2 = "snd (postToolUseHook (str ''12:00:01.250'') 1250 ?inp (str ''toolu_04'') ?s1)"
  have a: "(1000::int) \<noteq> 0" "(1000::int) \<le> 1250" by simp_all
  have b: "toolStartTimes ?s1 (str ''toolu_04'') = Some 1000" by (rule pre_start)
  have c: "toolStartTimes ?s2 (str ''toolu_04'') = None" by (rule post_removes)
  have k: "str ''toolu_09'' \<noteq> str ''toolu_04''" by (simp add: str_def)
  from C3_begin_end [OF a b, where ?s2.0 = ?s2 and ?t2.0 = 2000 and ?inp2.0 = ?inp
      and ?ts2.0 = "str ''12:00:02.000''" and ?ts1.0 = "str ''12:00:01.250''"
      and ?inp1.0 = ?inp and k = "str ''toolu_09''" and ?s3.0 = ?s1 and ?t3.0 = 1100
      and ?ts3.0 = "str ''12:00:01.100''"
      and ?inp3.0 = "\<lparr>tool_name = str ''Glob'', tool_input = JUndefined\<rparr>"] b c k
  show ?thesis by simp
qed

text \<open>
  C4. The summary is a function of the audit trail alone. The per-tool counts and the total
  duration are those of the POST entries (the other entries do not change them): the count
  of a tool is the number of POST entries with its name, and the total is the sum of the
  durations of the POST entries. The blocked count is the number of entries, of either
  phase, whose \<open>blocked\<close> flag is true. Computing the summary leaves the state as it was, so
  computing it again gives the same aggregates.
\<close>

theorem C4_summarize:
  "toolCounts (summarize trail) = toolCounts (summarize (filter isPost trail))
   \<and> totalDuration (summarize trail) = totalDuration (summarize (filter isPost trail))
   \<and> map_of (toolCounts (summarize trail)) name =
       (if filter (\<lambda>e. isPost e \<and> toolName e = name) trail = [] then None
        else Some (length (filter (\<lambda>e. isPost e \<and> toolName e = name) trail)))
   \<and> totalDuration (summarize trail) = sum_list (map durationOr0 (filter isPost trail))
   \<and> blockedCount (summarize trail) =
       length (filter (\<lambda>e. AuditEntry.blocked e = Some True) trail)
   \<and> fst (auditSummary (snd (auditSummary s))) = fst (auditSummary s)
   \<and> snd (auditSummary s) = s"
proof -
  have f: "filter (\<lambda>e. toolName e = name) (filter isPost trail) =
      filter (\<lambda>e. isPost e \<and> toolName e = name) trail"
    by (simp add: conj_commute)
  show ?thesis
    by (simp add: summarize_def auditSummary_def loop_blocked loop_total loop_counts
          bump_count f)
qed

text \<open>On the sample trail: one Read, none for Bash, 250 ms, one blocked entry (a PRE one).\<close>

theorem C4_summarize_witness:
  "map_of (toolCounts (summarize sampleTrail)) (str ''Read'') = Some 1
   \<and> map_of (toolCounts (summarize sampleTrail)) (str ''Bash'') = None
   \<and> totalDuration (summarize sampleTrail) = 250
   \<and> blockedCount (summarize sampleTrail) = 1
   \<and> fst (auditSummary (snd (auditSummary \<lparr>auditTrail = sampleTrail, toolStartTimes = Map.empty\<rparr>)))
       = fst (auditSummary \<lparr>auditTrail = sampleTrail, toolStartTimes = Map.empty\<rparr>)"
proof -
  let ?s = "\<lparr>auditTrail = sampleTrail, toolStartTimes = Map.empty\<rparr>"
  have ne: "str ''Read'' \<noteq> str ''Bash''" by (simp add: str_def)
  have r: "length (filter (\<lambda>e. isPost e \<and> toolName e = str ''Read'') sampleTrail) = 1"
    and b: "filter (\<lambda>e. isPost e \<and> toolName e = str ''Bash'') sampleTrail = []"
    and d: "sum_list (map durationOr0 (filter isPost sampleTrail)) = 250"
    and k: "length (filter (\<lambda>e. AuditEntry.blocked e = Some True) sampleTrail) = 1"
    using ne by (simp_all add: sampleTrail_def isPost_def durationOr0_def)
  have r': "filter (\<lambda>e. isPost e \<and> toolName e = str ''Read'') sampleTrail \<noteq> []"
    using r by auto
  note A = C4_summarize [of sampleTrail "str ''Read''" ?s]
  note B = C4_summarize [of sampleTrail "str ''Bash''" ?s]
  have "map_of (toolCounts (summarize sampleTrail)) (str ''Read'') = Some 1"
    using A [THEN conjunct2, THEN conjunct2, THEN conjunct1] by (simp only: r r' if_False)
  moreover have "map_of (toolCounts (summarize sampleTrail)) (str ''Bash'') = None"
    using B [THEN conjunct2, THEN conjunct2, THEN conjunct1] by (simp add: b)
  moreover have "totalDuration (summarize sampleTrail) = 250"
    using A [THEN conjunct2, THEN conjunct2, THEN conjunct2, THEN conjunct1]
    by (simp only: d)
  moreover have "blockedCount (summarize sampleTrail) = 1"
    using A [THEN conjunct2, THEN conjunct2, THEN conjunct2, THEN conjunct2, THEN conjunct1]
    by (simp only: k)
  moreover have "fst (auditSummary (snd (auditSummary ?s))) = fst (auditSummary ?s)"
    using A by (simp only:)
  ultimately show ?thesis by (simp only: simp_thms)
qed

text \<open>
  C5. As stated (a second begin on an id leaves the existing record unchanged) the claim
  fails: line 100 is an unconditional \<open>toolStartTimes.set\<close>, so a second PRE call at time 20
  on an id that started at time 10 leaves 20 in the record.
\<close>

theorem C5_counterexample:
  "toolStartTimes
     (snd (preToolUseHook (str ''12:00:00.020'') 20
        \<lparr>tool_name = str ''Read'', tool_input = JUndefined\<rparr> (str ''toolu_05'')
        (snd (preToolUseHook (str ''12:00:00.010'') 10
           \<lparr>tool_name = str ''Read'', tool_input = JUndefined\<rparr> (str ''toolu_05'')
           \<lparr>auditTrail = [], toolStartTimes = Map.empty\<rparr>))))
     (str ''toolu_05'') = Some 20"
  by (simp add: pre_start)

text \<open>
  C5, amended. A PRE call on a tool use id never fails on account of an existing record
  and does not keep it: whatever the store holds, the record of the id afterwards is the
  time of this call, and the result of the call and the audit trail it leaves are those of
  a call on any other store.
\<close>

theorem C5_second_begin_overwrites:
  "toolStartTimes (snd (preToolUseHook ts now inp useId s)) useId = Some now
   \<and> fst (preToolUseHook ts now inp useId (s\<lparr>toolStartTimes := m\<rparr>)) =
       fst (preToolUseHook ts now inp useId s)
   \<and> auditTrail (snd (preToolUseHook ts now inp useId (s\<lparr>toolStartTimes := m\<rparr>))) =
       auditTrail (snd (preToolUseHook ts now inp useId s))"
  by (simp add: pre_start pre_independent_of_store)

text \<open>
  C6. Correlation records are to be short-lived: none is to remain for an invocation that
  has finished, one denied at PRE included. The source does not do this on the denied
  path. The start time is stored at line 100, before the command is checked, and the deny
  is returned at line 122 without deleting it; no POST call follows a deny. For the Bash
  command \<open>rm -rf /\<close> the PRE call returns the deny and the record of the id is still in
  the store, whereas the PRE and POST calls of an allowed Read leave none.
\<close>

theorem C6_denied_record_remains:
  "fst (preToolUseHook (str ''12:00:00.000'') 1000
     \<lparr>tool_name = str ''Bash'',
      tool_input = JObj [(str ''command'', JStr (str ''rm -rf /''))]\<rparr>
     (str ''toolu_06'') \<lparr>auditTrail = [], toolStartTimes = Map.empty\<rparr>) =
     Inr (Some \<lparr>permissionDecision = str ''deny'',
                permissionDecisionReason =
                  str ''Blocked dangerous command: '' @ str ''rm with absolute path''\<rparr>)
   \<and> toolStartTimes (snd (preToolUseHook (str ''12:00:00.000'') 1000
     \<lparr>tool_name = str ''Bash'',
      tool_input = JObj [(str ''command'', JStr (str ''rm -rf /''))]\<rparr>
     (str ''toolu_06'') \<lparr>auditTrail = [], toolStartTimes = Map.empty\<rparr>)) (str ''toolu_06'')
     = Some 1000
   \<and> toolStartTimes (snd (postToolUseHook (str ''12:00:00.250'') 1250
     \<lparr>tool_name = str ''Read'', tool_input = JUndefined\<rparr> (str ''toolu_07'')
     (snd (preToolUseHook (str ''12:00:00.000'') 1000
        \<lparr>tool_name = str ''Read'', tool_input = JUndefined\<rparr> (str ''toolu_07'')
        \<lparr>auditTrail = [], toolStartTimes = Map.empty\<rparr>)))) (str ''toolu_07'')
     = None"
proof -
  have "str ''rm -rf /'' \<noteq> []" by (simp add: str_def)
  then show ?thesis
    by (simp add: pre_start post_removes pre_blocked [OF _ _ _ check_rm_rf_root])
qed

text \<open>
  C7. A registration whose matcher is \<open>Write|Edit\<close> is among those resolved for the tool
  names \<open>Write\<close> and \<open>Edit\<close> and not among those resolved for \<open>Read\<close>; the matcher is matched
  against the whole tool name, so the registration is resolved for these two names and for
  no other (no longer name that merely contains one of them).
\<close>

theorem C7_write_edit_matcher:
  assumes "matcher reg = Some writeEditMatcher" and "reg \<in> set regs"
  shows "reg \<in> set (resolve regs (str ''Write''))
    \<and> reg \<in> set (resolve regs (str ''Edit''))
    \<and> reg \<notin> set (resolve regs (str ''Read''))
    \<and> (\<forall>name. reg \<in> set (resolve regs name) \<longleftrightarrow> name = str ''Write'' \<or> name = str ''Edit'')"
proof -
  have all: "reg \<in> set (resolve regs name) \<longleftrightarrow> name = str ''Write'' \<or> name = str ''Edit''"
    for name
    using assms by (simp add: resolve_member matcherApplies_def writeEdit_whole)
  have "str ''Read'' \<noteq> str ''Write''" "str ''Read'' \<noteq> str ''Edit''"
    by (simp_all add: str_def)
  with all show ?thesis by blast
qed

text \<open>
  The configuration of the source: its second PRE registration is resolved for \<open>Write\<close> and
  \<open>Edit\<close>, not for \<open>Read\<close> or \<open>NotebookEdit\<close>; its first, without matcher, for \<open>Read\<close> too.
\<close>

theorem C7_write_edit_matcher_witness:
  "PreToolUse ! 1 \<in> set (resolve PreToolUse (str ''Write''))
   \<and> PreToolUse ! 1 \<in> set (resolve PreToolUse (str ''Edit''))
   \<and> PreToolUse ! 1 \<notin> set (resolve PreToolUse (str ''Read''))
   \<and> PreToolUse ! 1 \<notin> set (resolve PreToolUse (str ''NotebookEdit''))
   \<and> PreToolUse ! 0 \<in> set (resolve PreToolUse (str ''Read''))"
proof -
  have m: "matcher (PreToolUse ! 1) = Some writeEditMatcher"
    and i: "PreToolUse ! 1 \<in> set PreToolUse"
    and g: "PreToolUse ! 0 \<in> set (resolve PreToolUse (str ''Read''))"
    by (simp_all add: PreToolUse_def resolve_def matcherApplies_def)
  have "str ''NotebookEdit'' \<noteq> str ''Write''" "str ''NotebookEdit'' \<noteq> str ''Edit''"
    by (simp_all add: str_def)
  with C7_write_edit_matcher [OF m i] g show ?thesis by blast
qed

text \<open>
  C8. When the hooks before it in the chain have returned neutral results and a hook raises
  instead of returning a decision, the dispatch is a DENY with reason
  \<open>hook execution failed\<close>: the fault is entered in the fault log, the hooks after it are not
  invoked, and the dispatcher returns its result (a decision, never a fault) together with
  the state the failing hook left, from which later dispatches proceed.
\<close>

theorem C8_fault_is_deny:
  assumes "afterNeutral hs1 s = Some s1" and "h s1 = (Inl e, s2)"
  shows "runChain (hs1 @ h # hs2) s =
     \<lparr>decision = \<lparr>outcome = DENY, reason = Some (str ''hook execution failed'')\<rparr>,
      invoked = length hs1 + 1, faultLog = [e], stateAfter = s2\<rparr>"
  using assms by (simp add: runChain_after_neutral)

text \<open>
  The configuration of the source on a Bash call whose \<open>command\<close> is the number 7:
  \<open>preToolUseHook\<close> raises a TypeError, and the dispatch is the deny.
\<close>

theorem C8_fault_is_deny_witness:
  "dispatchPre PreToolUse (str ''12:00:00.000'') 1000
     \<lparr>tool_name = str ''Bash'', tool_input = JObj [(str ''command'', JNum 7)]\<rparr>
     (str ''toolu_02'') \<lparr>auditTrail = [], toolStartTimes = Map.empty\<rparr> =
   \<lparr>decision = \<lparr>outcome = DENY, reason = Some (str ''hook execution failed'')\<rparr>,
    invoked = 1, faultLog = [TypeError],
    stateAfter = \<lparr>auditTrail = [], toolStartTimes = [str ''toolu_02'' \<mapsto> 1000]\<rparr>\<rparr>"
proof -
  let ?inp = "\<lparr>tool_name = str ''Bash'', tool_input = JObj [(str ''command'', JNum 7)]\<rparr>"
  let ?s = "\<lparr>auditTrail = [], toolStartTimes = Map.empty\<rparr>"
  let ?h = "preToolUseHook (str ''12:00:00.000'') 1000 ?inp (str ''toolu_02'')"
  have r: "resolve PreToolUse (str ''Bash'') = [PreToolUse ! 0]"
    by (simp add: resolve_def PreToolUse_def matcherApplies_def writeEdit_whole)
       (simp add: str_def)
  have f: "flatten [PreToolUse ! 0] = [preToolUseHook]"
    by (simp add: flatten_def PreToolUse_def)
  have h: "?h ?s = (Inl TypeError, \<lparr>auditTrail = [], toolStartTimes = [str ''toolu_02'' \<mapsto> 1000]\<rparr>)"
    using pre_non_string_command [where v = "JNum 7" and inp = ?inp and s = ?s]
    by simp
  have n: "afterNeutral [] ?s = Some ?s" by simp
  have d: "dispatchPre PreToolUse (str ''12:00:00.000'') 1000 ?inp (str ''toolu_02'') ?s =
      runChain ([] @ ?h # []) ?s"
    by (simp add: dispatchPre_def r f del: runChain.simps)
  have c: "runChain ([] @ ?h # []) ?s =
     \<lparr>decision = \<lparr>outcome = DENY, reason = Some (str ''hook execution failed'')\<rparr>,
      invoked = length ([] :: HookState ChainHook list) + 1, faultLog = [TypeError],
      stateAfter = \<lparr>auditTrail = [], toolStartTimes = [str ''toolu_02'' \<mapsto> 1000]\<rparr>\<rparr>"
    using n h by (rule C8_fault_is_deny [where h = ?h])
  show ?thesis
    unfolding d c by simp
qed

text \<open>
  C9. Matching a dangerous command is an unanchored search: \<open>checkDangerousCommand\<close>
  answers \<open>blocked = true\<close> exactly when some pattern of \<open>DANGEROUS_PATTERNS\<close> matches some
  substring of the command, wherever it stands (inside quoted text too), and it answers
  \<open>blocked = false\<close> with no reason exactly when no pattern matches anywhere.
\<close>

theorem C9_unanchored:
  "CheckResult.blocked (checkDangerousCommand c) =
     (\<exists>p\<in>set DANGEROUS_PATTERNS. matchesAnywhere (pattern p) c)
   \<and> (checkDangerousCommand c = \<lparr>CheckResult.blocked = False, reason = None\<rparr>) =
     (\<not> (\<exists>p\<in>set DANGEROUS_PATTERNS. matchesAnywhere (pattern p) c))"
proof -
  have b: "CheckResult.blocked (checkDangerousCommand c) =
     (\<exists>p\<in>set DANGEROUS_PATTERNS. matchesAnywhere (pattern p) c)"
    by (simp add: checkDangerousCommand_def checkLoop_blocked test_iff)
  have "(checkDangerousCommand c = \<lparr>CheckResult.blocked = False, reason = None\<rparr>) =
     (\<not> CheckResult.blocked (checkDangerousCommand c))"
    using checkLoop_reason_None [of DANGEROUS_PATTERNS c]
    by (cases "checkDangerousCommand c") (auto simp: checkDangerousCommand_def)
  with b show ?thesis by simp
qed

text \<open>The command \<open>echo 'rm -rf /'\<close>, where the match is inside the quoted argument.\<close>

theorem C9_unanchored_witness:
  "CheckResult.blocked
     (checkDangerousCommand (str (''echo '' @ [CHR 0x27] @ ''rm -rf /'' @ [CHR 0x27])))"
proof -
  let ?p = "DANGEROUS_PATTERNS ! 0"
  let ?c = "str (''echo '' @ [CHR 0x27] @ ''rm -rf /'' @ [CHR 0x27])"
  have "matches (pattern ?p) (str ''rm -rf /'')"
    by (simp add: matchWhole_iff [symmetric] DANGEROUS_PATTERNS_def str_def ws_def OneOrMore_def)
  moreover have "?c = str (''echo '' @ [CHR 0x27]) @ str ''rm -rf /'' @ str [CHR 0x27]"
    by (simp add: str_def)
  ultimately have "matchesAnywhere (pattern ?p) ?c"
    unfolding matchesAnywhere_def by blast
  moreover have "?p \<in> set DANGEROUS_PATTERNS"
    by (simp add: DANGEROUS_PATTERNS_def)
  ultimately show ?thesis
    using C9_unanchored [of ?c] by blast
qed

text \<open>
  C10. The duration of the POST audit entry is absent when the store has no start time for
  the tool use id, and also when the stored start time is 0 (the truthiness test takes 0
  for a missing record); for a stored start time \<open>t > 0\<close> it is the time of the POST call
  minus \<open>t\<close>. The entry is the one entry the call appends, of phase POST.
\<close>

theorem C10_zero_start_time:
  "(toolStartTimes s useId = None \<longrightarrow> duration (postEntry ts now inp useId s) = None)
   \<and> (toolStartTimes s useId = Some 0 \<longrightarrow> duration (postEntry ts now inp useId s) = None)
   \<and> (\<forall>t. toolStartTimes s useId = Some t \<and> 0 < t \<longrightarrow>
          duration (postEntry ts now inp useId s) = Some (now - t))
   \<and> phase (postEntry ts now inp useId s) = Post
   \<and> auditTrail (snd (postToolUseHook ts now inp useId s)) =
       auditTrail s @ [postEntry ts now inp useId s]"
  by (simp add: postEntry_duration) (simp add: postEntry_def post_snd)

text \<open>No record, a record of 0, and a record of 100 read at time 350.\<close>

theorem C10_zero_start_time_witness:
  "duration (postEntry (str ''12:00:01.000'') 350
       \<lparr>tool_name = str ''Read'', tool_input = JUndefined\<rparr> (str ''toolu_03'')
       \<lparr>auditTrail = [], toolStartTimes = Map.empty\<rparr>) = None
   \<and> duration (postEntry (str ''12:00:01.000'') 350
       \<lparr>tool_name = str ''Read'', tool_input = JUndefined\<rparr> (str ''toolu_03'')
       \<lparr>auditTrail = [], toolStartTimes = [str ''toolu_03'' \<mapsto> 0]\<rparr>) = None
   \<and> duration (postEntry (str ''12:00:01.000'') 350
       \<lparr>tool_name = str ''Read'', tool_input = JUndefined\<rparr> (str ''toolu_03'')
       \<lparr>auditTrail = [], toolStartTimes = [str ''toolu_03'' \<mapsto> 100]\<rparr>) = Some 250"
  using
    C10_zero_start_time [of "\<lparr>auditTrail = [], toolStartTimes = Map.empty\<rparr>"
      "str ''toolu_03''" "str ''12:00:01.000''" 350
      "\<lparr>tool_name = str ''Read'', tool_input = JUndefined\<rparr>"]
    C10_zero_start_time [of "\<lparr>auditTrail = [], toolStartTimes = [str ''toolu_03'' \<mapsto> 0]\<rparr>"
      "str ''toolu_03''" "str ''12:00:01.000''" 350
      "\<lparr>tool_name = str ''Read'', tool_input = JUndefined\<rparr>"]
    C10_zero_start_time [of "\<lparr>auditTrail = [], toolStartTimes = [str ''toolu_03'' \<mapsto> 100]\<rparr>"
      "str ''toolu_03''" "str ''12:00:01.000''" 350
      "\<lparr>tool_name = str ''Read'', tool_input = JUndefined\<rparr>"]
  by simp

end
